theory Spec2Isabelle
  imports Complex_Main "HOL-Library.Sublist"
begin

section \<open>The SPIT application of app\_spit.c: data\<close>

text \<open>
  The development embeds the function \<^verbatim>\<open>isAutomatedDialer\<close> of \<^verbatim>\<open>app_spit.c\<close>.
  The C \<^verbatim>\<open>int\<close> variables of the function are mathematical integers here. Signed
  overflow is undefined in C (the compiled code wraps around), so the model agrees with
  the program on the runs in which no sum leaves the range of \<^verbatim>\<open>int\<close>. Where a
  property depends on the sums of lines 321 and 324, it is stated for runs that are
  shown to stay in that range (\<open>fits_int\<close>, \<open>time_in_range\<close>).

  What the function receives from Asterisk is made explicit input:
  \<^item> the module's default parameters (file-scope variables that \<^verbatim>\<open>load_config\<close>
    overwrites) are a record;
  \<^item> an application argument is \<open>None\<close> when it is missing or empty
    (\<^verbatim>\<open>ast_strlen_zero\<close>) and \<open>Some n\<close> when \<^verbatim>\<open>atoi\<close> reads \<open>n\<close> from it;
  \<^item> every turn of the \<^verbatim>\<open>while\<close> loop consumes one \<open>channel_event\<close>: the value
    returned by \<^verbatim>\<open>ast_waitfor\<close> and the frame returned by \<^verbatim>\<open>ast_read\<close>
    (\<open>None\<close> for \<^verbatim>\<open>NULL\<close>);
  \<^item> a frame carries what the function reads from it: its type, the integer of its
    subclass, its sample count, and the total silence that \<^verbatim>\<open>ast_dsp_silence\<close> stores
    for it (the detector is an external, stateful collaborator, so each voice frame
    is labelled with the detector's answer).
\<close>

datatype ast_frame_type =
    AST_FRAME_DTMF_BEGIN
  | AST_FRAME_DTMF_END
  | AST_FRAME_VOICE
  | AST_FRAME_NULL
  | AST_FRAME_CNG
  | AST_FRAME_OTHER

record ast_frame =
  frametype :: ast_frame_type
  subclass_integer :: int
  ast_codec_samples_count :: nat
  ast_dsp_silence :: nat

record channel_event =
  ast_waitfor :: int
  ast_read :: "ast_frame option"

record defaults =
  dfltInitialSilence :: int
  dfltGreeting :: int
  dfltAfterGreetingSilence :: int
  dfltTotalAnalysisTime :: int
  dfltMinimumWordLength :: int
  dfltBetweenWordsSilence :: int
  dfltMaximumNumberOfWords :: int
  dfltSilenceThreshold :: int
  dfltMaximumWordLength :: int

text \<open>The static initialisers of lines 166--174.\<close>

definition initial_defaults :: defaults where
  "initial_defaults =
     \<lparr>dfltInitialSilence = 2500, dfltGreeting = 1500, dfltAfterGreetingSilence = 800,
      dfltTotalAnalysisTime = 5000, dfltMinimumWordLength = 100,
      dfltBetweenWordsSilence = 50, dfltMaximumNumberOfWords = 3,
      dfltSilenceThreshold = 256, dfltMaximumWordLength = 5000\<rparr>"

text \<open>Line 177: no code assigns to this variable, so it is a constant.\<close>

definition dfltMaxWaitTimeForFrame :: int where
  "dfltMaxWaitTimeForFrame = 50"

text \<open>
  Modelled from the spec: the macro \<^verbatim>\<open>DEFAULT_SAMPLES_PER_MS\<close> comes from an Asterisk
  header that is not part of the repository. The spec says that the duration of a voice
  frame is computed from its sample count; the value is that of the 8 kHz signed linear
  format the function selects (8 samples per millisecond). The general theorems below
  do not depend on the value.
\<close>

definition DEFAULT_SAMPLES_PER_MS :: nat where
  "DEFAULT_SAMPLES_PER_MS = 8"

record app_args =
  argInitialSilence :: "int option"
  argGreeting :: "int option"
  argAfterGreetingSilence :: "int option"
  argTotalAnalysisTime :: "int option"
  argMinimumWordLength :: "int option"
  argBetweenWordsSilence :: "int option"
  argMaximumNumberOfWords :: "int option"
  argSilenceThreshold :: "int option"
  argMaximumWordLength :: "int option"

definition no_args :: app_args where
  "no_args =
     \<lparr>argInitialSilence = None, argGreeting = None, argAfterGreetingSilence = None,
      argTotalAnalysisTime = None, argMinimumWordLength = None,
      argBetweenWordsSilence = None, argMaximumNumberOfWords = None,
      argSilenceThreshold = None, argMaximumWordLength = None\<rparr>"

record params =
  initialSilence :: int
  greeting :: int
  afterGreetingSilence :: int
  totalAnalysisTime :: int
  minimumWordLength :: int
  betweenWordsSilence :: int
  maximumNumberOfWords :: int
  silenceThreshold :: int
  maximumWordLength :: int
  maxWaitTimeForFrame :: int

datatype word_state = STATE_IN_WORD | STATE_IN_SILENCE

text \<open>The local variables of lines 184--193 that live across loop turns.\<close>

record detection_state =
  dspsilence :: int
  inInitialSilence :: int
  inGreeting :: int
  voiceDuration :: int
  silenceDuration :: int
  iTotalTime :: int
  iWordsCount :: int
  currentState :: word_state
  consecutiveVoiceDuration :: int

definition initial_state :: detection_state where
  "initial_state =
     \<lparr>dspsilence = 0, inInitialSilence = 1, inGreeting = 0, voiceDuration = 0,
      silenceDuration = 0, iTotalTime = 0, iWordsCount = 0,
      currentState = STATE_IN_WORD, consecutiveVoiceDuration = 0\<rparr>"

text \<open>
  The places where control leaves the loop: the loop condition (line 296) and the eight
  \<^verbatim>\<open>break\<close> statements, in program order.
\<close>

datatype exit_point =
    WAITFOR_FAILED
  | HANGUP
  | DTMFFRAME
  | TIMEOUT
  | INITIALSILENCE
  | SILENCEAFTERNOISE
  | MAXWORDLENGTH
  | MAXWORDS
  | LONGGREETING

text \<open>
  What is known when the loop is left: where, the value of \<^verbatim>\<open>res\<close>, the two
  buffers, and the local variables.
\<close>

record loop_exit =
  left_at :: exit_point
  res :: int
  spitStatus :: string
  spitCause :: string
  locals :: detection_state

datatype step = Continue detection_state | Exit loop_exit

section \<open>Formatting\<close>

text \<open>\<^verbatim>\<open>sprintf\<close> with \<^verbatim>\<open>%d\<close>: decimal digits, a minus sign for a negative number.\<close>

definition digit_char :: "nat \<Rightarrow> char" where
  "digit_char n = ''0123456789'' ! n"

function string_of_nat :: "nat \<Rightarrow> string" where
  "string_of_nat n =
     (if n < 10 then [digit_char n] else string_of_nat (n div 10) @ [digit_char (n mod 10)])"
  by pat_completeness auto
termination
  by (relation "measure id") auto

declare string_of_nat.simps [simp del]

definition format_d :: "int \<Rightarrow> string" where
  "format_d i = (if i < 0 then CHR ''-'' # string_of_nat (nat (- i)) else string_of_nat (nat i))"

section \<open>The parameters (lines 201--267)\<close>

definition override :: "int \<Rightarrow> int option \<Rightarrow> int" where
  "override dflt arg = (case arg of None \<Rightarrow> dflt | Some v \<Rightarrow> v)"

definition lower_to :: "int \<Rightarrow> int \<Rightarrow> int" where
  "lower_to w v = (if w > v then v else w)"

definition resolve_params :: "defaults \<Rightarrow> app_args \<Rightarrow> params" where
  "resolve_params d a =
     (let p = \<lparr>initialSilence = override (dfltInitialSilence d) (argInitialSilence a),
               greeting = override (dfltGreeting d) (argGreeting a),
               afterGreetingSilence =
                 override (dfltAfterGreetingSilence d) (argAfterGreetingSilence a),
               totalAnalysisTime = override (dfltTotalAnalysisTime d) (argTotalAnalysisTime a),
               minimumWordLength = override (dfltMinimumWordLength d) (argMinimumWordLength a),
               betweenWordsSilence =
                 override (dfltBetweenWordsSilence d) (argBetweenWordsSilence a),
               maximumNumberOfWords =
                 override (dfltMaximumNumberOfWords d) (argMaximumNumberOfWords a),
               silenceThreshold = override (dfltSilenceThreshold d) (argSilenceThreshold a),
               maximumWordLength = override (dfltMaximumWordLength d) (argMaximumWordLength a),
               maxWaitTimeForFrame = dfltMaxWaitTimeForFrame\<rparr>;
          w1 = lower_to (maxWaitTimeForFrame p) (initialSilence p);
          w2 = lower_to w1 (greeting p);
          w3 = lower_to w2 (afterGreetingSilence p);
          w4 = lower_to w3 (totalAnalysisTime p);
          w5 = lower_to w4 (minimumWordLength p);
          w6 = lower_to w5 (betweenWordsSilence p)
      in p\<lparr>maxWaitTimeForFrame := w6\<rparr>)"

section \<open>One turn of the loop (lines 296--432)\<close>

text \<open>Lines 318--322.\<close>

definition framelength_of :: "params \<Rightarrow> ast_frame \<Rightarrow> int" where
  "framelength_of p f =
     (if frametype f = AST_FRAME_VOICE
      then int (ast_codec_samples_count f div DEFAULT_SAMPLES_PER_MS)
      else 2 * maxWaitTimeForFrame p)"

text \<open>Lines 334--339: the new value of \<^verbatim>\<open>dspsilence\<close>.\<close>

definition feed_detector :: "params \<Rightarrow> int \<Rightarrow> ast_frame \<Rightarrow> int" where
  "feed_detector p d f =
     (if frametype f \<noteq> AST_FRAME_VOICE then d + 2 * maxWaitTimeForFrame p
      else int (ast_dsp_silence f))"

text \<open>Lines 342--374, entered when \<^verbatim>\<open>dspsilence > 0\<close>.\<close>

definition silence_branch :: "params \<Rightarrow> detection_state \<Rightarrow> step" where
  "silence_branch p s0 =
     (let s1 = s0\<lparr>silenceDuration := dspsilence s0\<rparr>;
          s2 = (if silenceDuration s1 \<ge> betweenWordsSilence p
                then s1\<lparr>currentState := STATE_IN_SILENCE, consecutiveVoiceDuration := 0\<rparr>
                else s1)
      in if inInitialSilence s2 = 1 \<and> silenceDuration s2 \<ge> initialSilence p
         then Exit \<lparr>left_at = INITIALSILENCE, res = 1, spitStatus = ''HUMAN'',
                     spitCause = ''INITIALSILENCE-'' @ format_d (silenceDuration s2) @ ''-''
                                   @ format_d (initialSilence p),
                     locals = s2\<rparr>
         else if silenceDuration s2 \<ge> afterGreetingSilence p \<and> inGreeting s2 = 1
         then Exit \<lparr>left_at = SILENCEAFTERNOISE, res = 1, spitStatus = ''HUMAN'',
                     spitCause = ''SILENCEAFTERNOISE-'' @ format_d (silenceDuration s2) @ ''-''
                                   @ format_d (afterGreetingSilence p),
                     locals = s2\<rparr>
         else Continue s2)"

text \<open>
  Lines 377--423, entered otherwise. The \<^verbatim>\<open>break\<close> of line 392 leaves \<^verbatim>\<open>res\<close> as
  \<^verbatim>\<open>ast_waitfor\<close> set it; the other two set it to 1.
\<close>

definition voice_branch :: "params \<Rightarrow> int \<Rightarrow> int \<Rightarrow> detection_state \<Rightarrow> step" where
  "voice_branch p r framelength s0 =
     (let s1 = s0\<lparr>consecutiveVoiceDuration := consecutiveVoiceDuration s0 + framelength,
                  voiceDuration := voiceDuration s0 + framelength\<rparr>;
          s2 = (if consecutiveVoiceDuration s1 \<ge> minimumWordLength p
                   \<and> currentState s1 = STATE_IN_SILENCE
                then s1\<lparr>iWordsCount := iWordsCount s1 + 1, currentState := STATE_IN_WORD\<rparr>
                else s1)
      in if consecutiveVoiceDuration s2 \<ge> maximumWordLength p
         then Exit \<lparr>left_at = MAXWORDLENGTH, res = r, spitStatus = ''MACHINE'',
                     spitCause = ''MAXWORDLENGTH-'' @ format_d (consecutiveVoiceDuration s2),
                     locals = s2\<rparr>
         else if iWordsCount s2 \<ge> maximumNumberOfWords p
         then Exit \<lparr>left_at = MAXWORDS, res = 1, spitStatus = ''MACHINE'',
                     spitCause = ''MAXWORDS-'' @ format_d (iWordsCount s2) @ ''-''
                                   @ format_d (maximumNumberOfWords p),
                     locals = s2\<rparr>
         else if inGreeting s2 = 1 \<and> voiceDuration s2 \<ge> greeting p
         then Exit \<lparr>left_at = LONGGREETING, res = 1, spitStatus = ''MACHINE'',
                     spitCause = ''LONGGREETING-'' @ format_d (voiceDuration s2) @ ''-''
                                   @ format_d (greeting p),
                     locals = s2\<rparr>
         else
           (let s3 = (if voiceDuration s2 \<ge> minimumWordLength p
                      then s2\<lparr>silenceDuration := 0\<rparr> else s2);
                s4 = (if consecutiveVoiceDuration s3 \<ge> minimumWordLength p \<and> inGreeting s3 = 0
                      then s3\<lparr>inInitialSilence := 0, inGreeting := 1\<rparr> else s3)
            in Continue s4))"

text \<open>Lines 316--430: a voice, null or comfort-noise frame.\<close>

definition timed_frame :: "params \<Rightarrow> int \<Rightarrow> ast_frame \<Rightarrow> detection_state \<Rightarrow> step" where
  "timed_frame p r f s0 =
     (let framelength = framelength_of p f;
          s1 = s0\<lparr>iTotalTime := iTotalTime s0 + framelength\<rparr>
      in if iTotalTime s1 \<ge> totalAnalysisTime p
         then Exit \<lparr>left_at = TIMEOUT, res = r, spitStatus = ''NOTSURE'',
                     spitCause = ''TIMEOUT-'' @ format_d (iTotalTime s1), locals = s1\<rparr>
         else
           (let s2 = s1\<lparr>dspsilence := feed_detector p (dspsilence s1) f\<rparr>
            in if dspsilence s2 > 0 then silence_branch p s2
               else voice_branch p r framelength s2))"

text \<open>
  The loop condition and the body. A failed wait leaves the loop with both buffers
  still empty.
\<close>

definition loop_body :: "params \<Rightarrow> detection_state \<Rightarrow> channel_event \<Rightarrow> step" where
  "loop_body p s ev =
     (if \<not> ast_waitfor ev > - 1
      then Exit \<lparr>left_at = WAITFOR_FAILED, res = ast_waitfor ev, spitStatus = '''',
                  spitCause = '''', locals = s\<rparr>
      else case ast_read ev of
        None \<Rightarrow>
          Exit \<lparr>left_at = HANGUP, res = 1, spitStatus = ''HANGUP'', spitCause = '''',
                locals = s\<rparr>
      | Some f \<Rightarrow>
          if frametype f = AST_FRAME_DTMF_BEGIN \<or> frametype f = AST_FRAME_DTMF_END
          then Exit \<lparr>left_at = DTMFFRAME, res = 1, spitStatus = ''DTMF'',
                      spitCause = ''DTMFFRAME-'' @ format_d (subclass_integer f - 48),
                      locals = s\<rparr>
          else if frametype f = AST_FRAME_VOICE \<or> frametype f = AST_FRAME_NULL
                    \<or> frametype f = AST_FRAME_CNG
          then timed_frame p (ast_waitfor ev) f s
          else Continue s)"

section \<open>The loop and what is published (lines 296--443)\<close>

text \<open>
  The loop runs as long as the channel delivers events. On a finite list of events the
  result is \<open>Continue s\<close> when the loop has consumed them all and waits for the next
  one in state \<open>s\<close>, and \<open>Exit x\<close> when it was left.
\<close>

fun while_loop :: "params \<Rightarrow> detection_state \<Rightarrow> channel_event list \<Rightarrow> step" where
  "while_loop p s [] = Continue s"
| "while_loop p s (ev # evs) =
     (case loop_body p s ev of
        Continue s' \<Rightarrow> while_loop p s' evs
      | Exit x \<Rightarrow> Exit x)"

text \<open>Lines 434--443: the two channel variables \<^verbatim>\<open>SPITSTATUS\<close> and \<^verbatim>\<open>SPITCAUSE\<close>.\<close>

definition publish :: "loop_exit \<Rightarrow> string \<times> string" where
  "publish x =
     (if res x = 0 then (''NOFRAMES'', ''TIMEOUT-'' @ format_d (iTotalTime (locals x)))
      else (spitStatus x, spitCause x))"

text \<open>
  The run from the initial state: \<open>None\<close> while the loop is still waiting, the
  published pair once it was left.
\<close>

definition detect :: "params \<Rightarrow> channel_event list \<Rightarrow> (string \<times> string) option" where
  "detect p evs =
     (case while_loop p initial_state evs of
        Continue s \<Rightarrow> None
      | Exit x \<Rightarrow> Some (publish x))"

text \<open>
  The whole function. The channel also answers \<^verbatim>\<open>ast_set_read_format\<close> (negative on
  failure) and \<^verbatim>\<open>ast_dsp_new\<close> (whether a detector was created).
\<close>

record channel =
  ast_set_read_format :: int
  ast_dsp_new :: bool
  events :: "channel_event list"

definition isAutomatedDialer ::
  "defaults \<Rightarrow> app_args \<Rightarrow> channel \<Rightarrow> (string \<times> string) option" where
  "isAutomatedDialer d a chan =
     (let p = resolve_params d a
      in if ast_set_read_format chan < 0 then Some (''NOTSLIN'', ''INVALIDFORMAT'')
         else if \<not> ast_dsp_new chan then Some (''NODETECTOR'', ''CANNOTCREATE'')
         else detect p (events chan))"

section \<open>Vocabulary of the properties\<close>

text \<open>The local variables a turn of the loop ends with, whether the loop goes on or not.\<close>

definition locals_of :: "step \<Rightarrow> detection_state" where
  "locals_of r = (case r of Continue s \<Rightarrow> s | Exit x \<Rightarrow> locals x)"

definition exit_point_of :: "step \<Rightarrow> exit_point option" where
  "exit_point_of r = (case r of Continue s \<Rightarrow> None | Exit x \<Rightarrow> Some (left_at x))"

text \<open>The frame types that line 316 lets through to the timing code.\<close>

definition audio :: "ast_frame \<Rightarrow> bool" where
  "audio f = (frametype f = AST_FRAME_VOICE \<or> frametype f = AST_FRAME_NULL
              \<or> frametype f = AST_FRAME_CNG)"

definition dtmf :: "ast_frame \<Rightarrow> bool" where
  "dtmf f = (frametype f = AST_FRAME_DTMF_BEGIN \<or> frametype f = AST_FRAME_DTMF_END)"

text \<open>The milliseconds an event adds to \<open>iTotalTime\<close> when the loop body times it.\<close>

definition duration :: "params \<Rightarrow> channel_event \<Rightarrow> int" where
  "duration p ev =
     (case ast_read ev of
        None \<Rightarrow> 0
      | Some f \<Rightarrow> if audio f then framelength_of p f else 0)"

definition elapsed :: "params \<Rightarrow> channel_event list \<Rightarrow> int" where
  "elapsed p evs = sum_list (map (duration p) evs)"









text \<open>
  Every frame lasts at least \<open>d\<close> milliseconds: the event is a hangup or a DTMF frame
  (which end the run), or an audio frame with a frame length of at least \<open>d\<close>.
\<close>

definition lasts_at_least :: "params \<Rightarrow> int \<Rightarrow> channel_event \<Rightarrow> bool" where
  "lasts_at_least p d ev =
     (case ast_read ev of
        None \<Rightarrow> True
      | Some f \<Rightarrow> dtmf f \<or> (audio f \<and> d \<le> framelength_of p f))"

definition iteration_bound :: "params \<Rightarrow> int \<Rightarrow> nat" where
  "iteration_bound p d = nat \<lceil>real_of_int (totalAnalysisTime p) / real_of_int d\<rceil> + 1"

text \<open>
  The range of the C types: an \<^verbatim>\<open>int\<close> is at most \<open>INT_MAX\<close>, the sample count is an
  \<^verbatim>\<open>unsigned int\<close>. An event fits when its sample count is one and, for an audio
  frame, neither the frame length (line 321) nor its sum with any \<open>iTotalTime\<close> below
  \<open>totalAnalysisTime\<close> (line 324) exceeds \<open>INT_MAX\<close>. With the largest voice frame,
  536870911 ms, every \<open>totalAnalysisTime\<close> up to 1610612737 fits.
\<close>

definition INT_MAX :: int where
  "INT_MAX = 2147483647"

definition UINT_MAX :: nat where
  "UINT_MAX = 4294967295"

definition fits_int :: "params \<Rightarrow> channel_event \<Rightarrow> bool" where
  "fits_int p ev =
     (case ast_read ev of
        None \<Rightarrow> True
      | Some f \<Rightarrow>
          ast_codec_samples_count f \<le> UINT_MAX
          \<and> (audio f \<longrightarrow>
                framelength_of p f \<le> INT_MAX
                \<and> totalAnalysisTime p - 1 + framelength_of p f \<le> INT_MAX))"

text \<open>
  \<open>iTotalTime\<close> is a non-negative \<^verbatim>\<open>int\<close>, and it is 0 or below
  \<open>totalAnalysisTime\<close>, as at the head of every turn.
\<close>

definition time_in_range :: "params \<Rightarrow> detection_state \<Rightarrow> bool" where
  "time_in_range p s =
     (0 \<le> iTotalTime s \<and> iTotalTime s \<le> INT_MAX
      \<and> (iTotalTime s = 0 \<or> iTotalTime s < totalAnalysisTime p))"


text \<open>
  Two event lists deliver the same frames; they agree on the waits when each pair of
  waits failed, timed out or succeeded alike.
\<close>

definition same_frames :: "channel_event list \<Rightarrow> channel_event list \<Rightarrow> bool" where
  "same_frames evs evs' = (map ast_read evs = map ast_read evs')"

definition same_waits :: "channel_event list \<Rightarrow> channel_event list \<Rightarrow> bool" where
  "same_waits evs evs' = (map (\<lambda>ev. sgn (ast_waitfor ev)) evs = map (\<lambda>ev. sgn (ast_waitfor ev)) evs')"

text \<open>
  The buffers hold one of the five statuses that the loop body writes, and a cause that
  does not start with \<open>RECORDING\<close>.
\<close>

definition known_status :: "loop_exit \<Rightarrow> bool" where
  "known_status x =
     ((spitStatus x = ''HUMAN'' \<or> spitStatus x = ''MACHINE'' \<or> spitStatus x = ''DTMF''
       \<or> spitStatus x = ''NOTSURE'' \<or> spitStatus x = ''HANGUP'')
      \<and> \<not> prefix ''RECORDING'' (spitCause x))"

text \<open>
  \<open>set_res r\<close> puts \<open>r\<close> into \<open>res\<close> at the two \<^verbatim>\<open>break\<close> statements that do not
  assign it. Two steps have the same outcome when both continue with the same state or
  both leave the loop and publish the same pair.
\<close>

definition set_res :: "int \<Rightarrow> step \<Rightarrow> step" where
  "set_res r st =
     (case st of
        Continue a \<Rightarrow> Continue a
      | Exit x \<Rightarrow>
          Exit (if left_at x = TIMEOUT \<or> left_at x = MAXWORDLENGTH then x\<lparr>res := r\<rparr> else x))"

definition same_outcome :: "step \<Rightarrow> step \<Rightarrow> bool" where
  "same_outcome r r' =
     (case r of
        Continue a \<Rightarrow> r' = Continue a
      | Exit x \<Rightarrow> (case r' of Continue b \<Rightarrow> False | Exit y \<Rightarrow> publish x = publish y))"

definition flags_opposite :: "detection_state \<Rightarrow> bool" where
  "flags_opposite s =
     (inInitialSilence s = 1 - inGreeting s \<and> (inGreeting s = 0 \<or> inGreeting s = 1))"

section \<open>Concrete inputs\<close>

definition default_params :: params where
  "default_params = resolve_params initial_defaults no_args"

text \<open>A voice frame of \<open>n\<close> samples in which the detector reports \<open>sil\<close> ms of silence.\<close>

definition voice :: "nat \<Rightarrow> nat \<Rightarrow> ast_frame" where
  "voice n sil =
     \<lparr>frametype = AST_FRAME_VOICE, subclass_integer = 0, ast_codec_samples_count = n,
      ast_dsp_silence = sil\<rparr>"

definition null_frame :: ast_frame where
  "null_frame =
     \<lparr>frametype = AST_FRAME_NULL, subclass_integer = 0, ast_codec_samples_count = 0,
      ast_dsp_silence = 0\<rparr>"

definition dtmf_end :: "int \<Rightarrow> ast_frame" where
  "dtmf_end c =
     \<lparr>frametype = AST_FRAME_DTMF_END, subclass_integer = c, ast_codec_samples_count = 0,
      ast_dsp_silence = 0\<rparr>"

text \<open>The wait returned \<open>r\<close> and the read returned \<open>f\<close>; the read returned \<^verbatim>\<open>NULL\<close>.\<close>

definition got :: "int \<Rightarrow> ast_frame \<Rightarrow> channel_event" where
  "got r f = \<lparr>ast_waitfor = r, ast_read = Some f\<rparr>"

definition hangup :: channel_event where
  "hangup = \<lparr>ast_waitfor = 1, ast_read = None\<rparr>"

text \<open>The wait failed: the loop condition is false and nothing is read.\<close>

definition wait_failed :: channel_event where
  "wait_failed = \<lparr>ast_waitfor = - 1, ast_read = None\<rparr>"

text \<open>The default parameters with one or two application arguments given.\<close>

definition with_total :: "int \<Rightarrow> params" where
  "with_total t = resolve_params initial_defaults (no_args\<lparr>argTotalAnalysisTime := Some t\<rparr>)"

definition with_initial_silence :: "int \<Rightarrow> params" where
  "with_initial_silence t =
     resolve_params initial_defaults (no_args\<lparr>argInitialSilence := Some t\<rparr>)"

definition with_word_limits :: "int \<Rightarrow> int \<Rightarrow> params" where
  "with_word_limits n l =
     resolve_params initial_defaults
       (no_args\<lparr>argMaximumNumberOfWords := Some n, argMaximumWordLength := Some l\<rparr>)"

text \<open>
  The longest voice frame, 4294967295 samples, in which the detector reports 1 ms of
  silence.
\<close>

definition long_frame :: channel_event where
  "long_frame = got 1 (voice 4294967295 1)"



section \<open>The parameters: properties\<close>

lemma lower_to_le: "lower_to w v \<le> w" "lower_to w v \<le> v"
  by (simp_all add: lower_to_def)

text \<open>
  C6. For every default set and every argument list, the computed
  \<open>maxWaitTimeForFrame\<close> is at most each of \<open>initialSilence\<close>, \<open>greeting\<close>,
  \<open>afterGreetingSilence\<close>, \<open>totalAnalysisTime\<close>, \<open>minimumWordLength\<close> and
  \<open>betweenWordsSilence\<close> of the resolved set, and at most the preset value
  \<open>dfltMaxWaitTimeForFrame\<close>.
\<close>

theorem maxWaitTimeForFrame_lowest:
  "maxWaitTimeForFrame (resolve_params d a) \<le> initialSilence (resolve_params d a)
   \<and> maxWaitTimeForFrame (resolve_params d a) \<le> greeting (resolve_params d a)
   \<and> maxWaitTimeForFrame (resolve_params d a) \<le> afterGreetingSilence (resolve_params d a)
   \<and> maxWaitTimeForFrame (resolve_params d a) \<le> totalAnalysisTime (resolve_params d a)
   \<and> maxWaitTimeForFrame (resolve_params d a) \<le> minimumWordLength (resolve_params d a)
   \<and> maxWaitTimeForFrame (resolve_params d a) \<le> betweenWordsSilence (resolve_params d a)
   \<and> maxWaitTimeForFrame (resolve_params d a) \<le> dfltMaxWaitTimeForFrame"
  by (simp add: resolve_params_def Let_def lower_to_def)

section \<open>The loop: basic facts\<close>

lemma locals_of_simps [simp]:
  "locals_of (Continue s) = s" "locals_of (Exit x) = locals x"
  by (simp_all add: locals_of_def)

lemma exit_point_of_simps [simp]:
  "exit_point_of (Continue s) = None" "exit_point_of (Exit x) = Some (left_at x)"
  by (simp_all add: exit_point_of_def)

text \<open>The definitions that evaluate a run on concrete events.\<close>

lemmas eval_defs = detect_def initial_state_def resolve_params_def initial_defaults_def
  no_args_def override_def lower_to_def dfltMaxWaitTimeForFrame_def loop_body_def timed_frame_def
  framelength_of_def feed_detector_def silence_branch_def voice_branch_def
  DEFAULT_SAMPLES_PER_MS_def publish_def format_d_def string_of_nat.simps digit_char_def Let_def
  default_params_def voice_def null_frame_def got_def hangup_def dtmf_end_def wait_failed_def

lemma while_loop_append:
  "while_loop p s (xs @ ys) =
     (case while_loop p s xs of Continue s' \<Rightarrow> while_loop p s' ys | Exit x \<Rightarrow> Exit x)"
  by (induction xs arbitrary: s) (auto split: step.splits)

lemma format_d_5: "format_d 5 = ''5''"
  by (simp add: format_d_def string_of_nat.simps digit_char_def)

section \<open>DTMF\<close>

text \<open>
  C5. If the first frame delivered is a DTMF frame (begin or end) that carries the digit
  5, that is the character code 53 of \<open>5\<close> in \<open>subclass.integer\<close>, the run ends at once
  with status \<open>DTMF\<close> and cause \<open>DTMFFRAME-5\<close>, whatever follows. A frame is
  delivered when the wait did not fail.
\<close>

theorem dtmf_first:
  assumes "frametype f = AST_FRAME_DTMF_BEGIN \<or> frametype f = AST_FRAME_DTMF_END"
    and "subclass_integer f = 53"
    and "ast_waitfor ev > - 1"
    and "ast_read ev = Some f"
  shows "detect p (ev # evs) = Some (''DTMF'', ''DTMFFRAME-5'')"
  using assms by (auto simp add: detect_def loop_body_def publish_def format_d_5)

theorem dtmf_first_witness:
  "frametype (dtmf_end 53) = AST_FRAME_DTMF_END
   \<and> subclass_integer (dtmf_end 53) = 53
   \<and> ast_waitfor (got 1 (dtmf_end 53)) > - 1
   \<and> detect default_params [got 1 (dtmf_end 53), got 1 (voice 160 0)]
       = Some (''DTMF'', ''DTMFFRAME-5'')"
proof -
  have a: "frametype (dtmf_end 53) = AST_FRAME_DTMF_BEGIN
           \<or> frametype (dtmf_end 53) = AST_FRAME_DTMF_END"
    by (simp add: dtmf_end_def)
  have b: "subclass_integer (dtmf_end 53) = 53"
    by (simp add: dtmf_end_def)
  have c: "ast_waitfor (got 1 (dtmf_end 53)) > - 1"
    by (simp add: got_def)
  have d: "ast_read (got 1 (dtmf_end 53)) = Some (dtmf_end 53)"
    by (simp add: got_def)
  from dtmf_first [OF a b c d, of default_params "[got 1 (voice 160 0)]"] b c
  show ?thesis by (simp add: dtmf_end_def)
qed

section \<open>The two phase flags\<close>

lemma flags_silence: "flags_opposite s \<Longrightarrow> flags_opposite (locals_of (silence_branch p s))"
  by (simp add: flags_opposite_def silence_branch_def Let_def)

lemma flags_voice: "flags_opposite s \<Longrightarrow> flags_opposite (locals_of (voice_branch p r n s))"
  by (auto simp add: flags_opposite_def voice_branch_def Let_def)

lemma flags_timed:
  assumes "flags_opposite s"
  shows "flags_opposite (locals_of (timed_frame p r f s))"
proof -
  have b: "flags_opposite (s\<lparr>iTotalTime := t, dspsilence := d\<rparr>)" for t d
    using assms by (simp add: flags_opposite_def)
  have c: "flags_opposite (s\<lparr>iTotalTime := t\<rparr>)" for t
    using assms by (simp add: flags_opposite_def)
  show ?thesis
    unfolding timed_frame_def Let_def
    by (simp add: flags_silence flags_voice b c)
qed

lemma flags_step: "flags_opposite s \<Longrightarrow> flags_opposite (locals_of (loop_body p s ev))"
  by (simp add: loop_body_def flags_timed split: option.splits)

lemma flags_loop: "flags_opposite s \<Longrightarrow> flags_opposite (locals_of (while_loop p s evs))"
proof (induction evs arbitrary: s)
  case Nil
  then show ?case by simp
next
  case (Cons ev evs)
  show ?case
  proof (cases "loop_body p s ev")
    case (Continue s')
    with flags_step [OF Cons.prems, of p ev] have "flags_opposite s'"
      by simp
    with Continue Cons.IH show ?thesis by simp
  next
    case (Exit x)
    with flags_step [OF Cons.prems, of p ev] show ?thesis
      by simp
  qed
qed

text \<open>
  C10. In every state the loop reaches from the initial one, at the head of a turn or
  where the loop is left, \<open>inInitialSilence\<close> is the negation of \<open>inGreeting\<close>:
  both are 0 or 1 and \<open>inInitialSilence = 1 - inGreeting\<close>.
\<close>

theorem flags_always_opposite:
  "inInitialSilence (locals_of (while_loop p initial_state evs))
     = 1 - inGreeting (locals_of (while_loop p initial_state evs))
   \<and> (inGreeting (locals_of (while_loop p initial_state evs)) = 0
      \<or> inGreeting (locals_of (while_loop p initial_state evs)) = 1)"
proof -
  have "flags_opposite initial_state"
    by (simp add: flags_opposite_def initial_state_def)
  from flags_loop [OF this, of p evs] show ?thesis
    by (simp add: flags_opposite_def)
qed

section \<open>Elapsed time\<close>

lemma silence_time: "iTotalTime (locals_of (silence_branch p s)) = iTotalTime s"
  by (simp add: silence_branch_def Let_def)

lemma voice_time: "iTotalTime (locals_of (voice_branch p r n s)) = iTotalTime s"
  by (simp add: voice_branch_def Let_def)

lemma timed_time:
  "iTotalTime (locals_of (timed_frame p r f s)) = iTotalTime s + framelength_of p f"
  unfolding timed_frame_def Let_def
  by (simp add: silence_time voice_time)

lemma body_time:
  "iTotalTime (locals_of (loop_body p s ev))
     = iTotalTime s + (if ast_waitfor ev > - 1 then duration p ev else 0)"
  by (auto simp add: loop_body_def duration_def audio_def timed_time split: option.splits)

lemma body_continue_wait: "loop_body p s ev = Continue s' \<Longrightarrow> ast_waitfor ev > - 1"
  by (auto simp add: loop_body_def split: if_splits)

lemma body_continue_time:
  assumes "loop_body p s ev = Continue s'"
  shows "iTotalTime s' = iTotalTime s + duration p ev"
  using body_time [of p s ev] body_continue_wait [OF assms] assms by simp


section \<open>Timeout\<close>








section \<open>Monotone time and the number of turns\<close>

lemma duration_nonneg:
  "0 \<le> maxWaitTimeForFrame p \<Longrightarrow> 0 \<le> duration p ev"
  by (simp add: duration_def framelength_of_def split: option.splits)

lemma time_monotone:
  "0 \<le> maxWaitTimeForFrame p \<Longrightarrow> iTotalTime s \<le> iTotalTime (locals_of (loop_body p s ev))"
  using duration_nonneg [of p ev] by (simp add: body_time)

lemma timed_continue_below:
  "timed_frame p r f s = Continue s' \<Longrightarrow> iTotalTime s' < totalAnalysisTime p"
  using timed_time [of p r f s]
  by (auto simp add: timed_frame_def Let_def split: if_splits)

lemma body_continue_lasts:
  assumes "loop_body p s ev = Continue s'" and "lasts_at_least p d ev"
  shows "iTotalTime s + d \<le> iTotalTime s' \<and> iTotalTime s' < totalAnalysisTime p"
proof -
  from assms(1) obtain f where f: "ast_read ev = Some f" "\<not> dtmf f"
    by (auto simp add: loop_body_def dtmf_def split: if_splits option.splits)
  with assms(2) have a: "audio f" "d \<le> framelength_of p f"
    by (simp_all add: lasts_at_least_def)
  with f assms(1) have t: "timed_frame p (ast_waitfor ev) f s = Continue s'"
    by (auto simp add: loop_body_def audio_def split: if_splits)
  from a f have "duration p ev = framelength_of p f"
    by (simp add: duration_def)
  with body_continue_time [OF assms(1)] a(2) timed_continue_below [OF t]
  show ?thesis by simp
qed

lemma loop_continue_lasts:
  "while_loop p s evs = Continue s' \<Longrightarrow> list_all (lasts_at_least p d) evs \<Longrightarrow>
     iTotalTime s + d * int (length evs) \<le> iTotalTime s'
     \<and> (evs \<noteq> [] \<longrightarrow> iTotalTime s' < totalAnalysisTime p)"
proof (induction evs arbitrary: s)
  case Nil
  then show ?case by simp
next
  case (Cons ev evs)
  from Cons.prems(1) obtain s1 where s1: "loop_body p s ev = Continue s1"
    and rest: "while_loop p s1 evs = Continue s'"
    by (auto split: step.splits)
  from Cons.prems(2) have l: "lasts_at_least p d ev" "list_all (lasts_at_least p d) evs"
    by simp_all
  from body_continue_lasts [OF s1 l(1)] Cons.IH [OF rest l(2)] rest
  show ?case by (cases evs) (auto simp add: algebra_simps)
qed

lemma bound_exceeds:
  assumes "0 < d" and "int n * d < t"
  shows "n < nat \<lceil>real_of_int t / real_of_int d\<rceil>"
proof -
  from assms have "real n * real_of_int d < real_of_int t"
    by (metis of_int_less_iff of_int_mult of_int_of_nat_eq)
  with assms(1) have "real n < real_of_int t / real_of_int d"
    by (simp add: pos_less_divide_eq)
  also have "\<dots> \<le> real_of_int \<lceil>real_of_int t / real_of_int d\<rceil>"
    by (rule le_of_int_ceiling)
  finally have "int n < \<lceil>real_of_int t / real_of_int d\<rceil>"
    by linarith
  then show ?thesis by linarith
qed

lemma leaves_within_bound:
  assumes "0 < d" and "list_all (lasts_at_least p d) evs" and "iteration_bound p d \<le> length evs"
  shows "\<exists>x. while_loop p initial_state (take (iteration_bound p d) evs) = Exit x"
proof (cases "while_loop p initial_state (take (iteration_bound p d) evs)")
  case (Exit x)
  then show ?thesis by simp
next
  case (Continue s')
  let ?n = "iteration_bound p d"
  from assms(3) have len: "length (take ?n evs) = ?n" by simp
  have pos: "take ?n evs \<noteq> []"
    using len by (auto simp add: iteration_bound_def)
  from assms(2) have "list_all (lasts_at_least p d) (take ?n evs)"
    by (simp add: list_all_iff) (meson in_set_takeD)
  from loop_continue_lasts [OF Continue this] len pos
  have "d * int ?n < totalAnalysisTime p"
    by (simp add: initial_state_def)
  then have "int ?n * d < totalAnalysisTime p"
    by (simp add: mult.commute)
  from bound_exceeds [OF assms(1) this] have False
    by (simp add: iteration_bound_def)
  then show ?thesis ..
qed

lemma fits_duration:
  assumes "fits_int p ev"
  shows "duration p ev \<le> INT_MAX \<and> totalAnalysisTime p - 1 + duration p ev \<le> INT_MAX
         \<or> duration p ev = 0"
  using assms by (auto simp add: fits_int_def duration_def split: option.splits)

lemma body_continue_below:
  assumes "loop_body p s ev = Continue s'"
  shows "iTotalTime s' = iTotalTime s \<or> iTotalTime s' < totalAnalysisTime p"
proof (cases "ast_read ev")
  case None
  with assms show ?thesis by (simp add: loop_body_def split: if_splits)
next
  case (Some f)
  with assms have "timed_frame p (ast_waitfor ev) f s = Continue s' \<or> s' = s"
    by (auto simp add: loop_body_def split: if_splits)
  with timed_continue_below [of p "ast_waitfor ev" f s s'] show ?thesis by auto
qed

lemma loop_continue_below:
  "while_loop p s evs = Continue s' \<Longrightarrow>
     iTotalTime s' = iTotalTime s \<or> iTotalTime s' < totalAnalysisTime p"
proof (induction evs arbitrary: s)
  case Nil
  then show ?case by simp
next
  case (Cons ev evs)
  then obtain s1 where s1: "loop_body p s ev = Continue s1"
    and rest: "while_loop p s1 evs = Continue s'"
    by (auto split: step.splits)
  from body_continue_below [OF s1] Cons.IH [OF rest] show ?case by auto
qed

lemma elapsed_nonneg: "0 \<le> maxWaitTimeForFrame p \<Longrightarrow> 0 \<le> elapsed p evs"
  unfolding elapsed_def
  by (induction evs) (simp_all add: duration_nonneg)

lemma lasts_duration_nonneg: "0 < d \<Longrightarrow> lasts_at_least p d ev \<Longrightarrow> 0 \<le> duration p ev"
  by (auto simp add: lasts_at_least_def duration_def audio_def dtmf_def split: option.splits)

lemma body_in_range:
  assumes "0 \<le> duration p ev" and "fits_int p ev" and "time_in_range p s"
  shows "iTotalTime s \<le> iTotalTime (locals_of (loop_body p s ev))
         \<and> iTotalTime (locals_of (loop_body p s ev)) \<le> INT_MAX"
proof -
  note d = assms(1) fits_duration [OF assms(2)]
  have t: "iTotalTime (locals_of (loop_body p s ev))
     = iTotalTime s + (if ast_waitfor ev > - 1 then duration p ev else 0)"
    by (rule body_time)
  from assms(3) d t show ?thesis
    by (auto simp add: time_in_range_def split: if_splits)
qed

lemma body_keeps_range:
  assumes "0 \<le> duration p ev" and "fits_int p ev" and "time_in_range p s"
    and "loop_body p s ev = Continue s'"
  shows "time_in_range p s'"
  using body_in_range [OF assms(1-3)] body_continue_below [OF assms(4)] assms(3,4)
  by (auto simp add: time_in_range_def)

lemma initial_in_range: "time_in_range p initial_state"
  by (simp add: time_in_range_def initial_state_def INT_MAX_def)

lemma loop_in_range:
  "list_all (\<lambda>ev. 0 \<le> duration p ev \<and> fits_int p ev) evs \<Longrightarrow> time_in_range p s \<Longrightarrow>
     0 \<le> iTotalTime (locals_of (while_loop p s evs))
     \<and> iTotalTime (locals_of (while_loop p s evs)) \<le> INT_MAX
     \<and> (\<forall>s'. while_loop p s evs = Continue s' \<longrightarrow> time_in_range p s')"
proof (induction evs arbitrary: s)
  case Nil
  then show ?case by (simp add: time_in_range_def)
next
  case (Cons ev evs)
  from Cons.prems(1) have f: "0 \<le> duration p ev" "fits_int p ev"
    "list_all (\<lambda>ev. 0 \<le> duration p ev \<and> fits_int p ev) evs" by simp_all
  show ?case
  proof (cases "loop_body p s ev")
    case (Continue s1)
    from body_keeps_range [OF f(1) f(2) Cons.prems(2) Continue]
    have "time_in_range p s1" .
    from Cons.IH [OF f(3) this] Continue show ?thesis by simp
  next
    case (Exit x)
    with body_in_range [OF f(1) f(2) Cons.prems(2)] Cons.prems(2) show ?thesis
      by (simp add: time_in_range_def)
  qed
qed

lemma turn_in_range:
  assumes "0 \<le> maxWaitTimeForFrame p" and "list_all (fits_int p) (evs @ [ev])"
    and "while_loop p initial_state evs = Continue s"
  shows "0 \<le> iTotalTime s \<and> iTotalTime s \<le> iTotalTime (locals_of (loop_body p s ev))
         \<and> iTotalTime (locals_of (loop_body p s ev)) \<le> INT_MAX"
proof -
  from assms(2) have f: "list_all (fits_int p) evs" "fits_int p ev" by simp_all
  from f(1) assms(1) have "list_all (\<lambda>ev. 0 \<le> duration p ev \<and> fits_int p ev) evs"
    by (simp add: list_all_iff duration_nonneg)
  from loop_in_range [OF this initial_in_range] assms(3)
  have r: "time_in_range p s" by simp
  from body_in_range [OF duration_nonneg [OF assms(1)] f(2) r] r show ?thesis
    by (simp add: time_in_range_def)
qed

lemma leaves_in_range:
  assumes "0 < d" and "list_all (lasts_at_least p d) evs" and "list_all (fits_int p) evs"
    and "iteration_bound p d \<le> length evs"
  shows "\<exists>x. while_loop p initial_state (take (iteration_bound p d) evs) = Exit x
           \<and> 0 \<le> iTotalTime (locals x) \<and> iTotalTime (locals x) \<le> INT_MAX"
proof -
  from leaves_within_bound [OF assms(1,2,4)] obtain x
    where x: "while_loop p initial_state (take (iteration_bound p d) evs) = Exit x" ..
  from assms(2,3) assms(1)
  have "list_all (\<lambda>ev. 0 \<le> duration p ev \<and> fits_int p ev) evs"
    by (simp add: list_all_iff lasts_duration_nonneg)
  then have "list_all (\<lambda>ev. 0 \<le> duration p ev \<and> fits_int p ev) (take (iteration_bound p d) evs)"
    by (simp add: list_all_iff) (meson in_set_takeD)
  from loop_in_range [OF this initial_in_range] x show ?thesis by simp
qed

text \<open>
  C3, as amended. Take a run from the initial state whose events all fit the C types
  (\<open>fits_int\<close>). When \<open>maxWaitTimeForFrame\<close> is not negative, a turn of the loop never
  lowers \<open>iTotalTime\<close>, which stays between 0 and \<open>INT_MAX\<close>, so that line 324 adds
  in C what it adds here. When the frames each last at least \<open>d > 0\<close> ms, the loop is
  left within \<open>ceil(totalAnalysisTime / d) + 1\<close> turns, the ceiling counted as 0 when
  \<open>totalAnalysisTime\<close> is negative, and \<open>iTotalTime\<close> is between 0 and \<open>INT_MAX\<close>
  when it is left.
\<close>

theorem time_and_turns:
  "(0 \<le> maxWaitTimeForFrame p \<and> list_all (fits_int p) (pre @ [ev])
      \<and> while_loop p initial_state pre = Continue s \<longrightarrow>
       0 \<le> iTotalTime s \<and> iTotalTime s \<le> iTotalTime (locals_of (loop_body p s ev))
       \<and> iTotalTime (locals_of (loop_body p s ev)) \<le> INT_MAX)
   \<and> (0 < d \<and> list_all (lasts_at_least p d) evs \<and> list_all (fits_int p) evs
      \<and> iteration_bound p d \<le> length evs \<longrightarrow>
       (\<exists>x. while_loop p initial_state (take (iteration_bound p d) evs) = Exit x
          \<and> 0 \<le> iTotalTime (locals x) \<and> iTotalTime (locals x) \<le> INT_MAX))"
  using turn_in_range [of p pre ev s] leaves_in_range [of d p evs] by blast

theorem time_and_turns_witness:
  "0 \<le> maxWaitTimeForFrame (with_total 200)
   \<and> list_all (fits_int (with_total 200)) ([got 1 null_frame] @ [got 1 null_frame])
   \<and> while_loop (with_total 200) initial_state [got 1 null_frame]
       = Continue (locals_of (while_loop (with_total 200) initial_state [got 1 null_frame]))
   \<and> iTotalTime (locals_of (while_loop (with_total 200) initial_state [got 1 null_frame])) = 100
   \<and> iTotalTime (locals_of (loop_body (with_total 200)
        (locals_of (while_loop (with_total 200) initial_state [got 1 null_frame]))
        (got 1 null_frame))) = 200
   \<and> (0 :: int) < 100
   \<and> list_all (lasts_at_least (with_total 200) 100)
        [got 1 null_frame, got 1 null_frame, got 1 null_frame]
   \<and> list_all (fits_int (with_total 200))
        [got 1 null_frame, got 1 null_frame, got 1 null_frame]
   \<and> iteration_bound (with_total 200) 100
        \<le> length [got 1 null_frame, got 1 null_frame, got 1 null_frame]
   \<and> (\<exists>x. while_loop (with_total 200) initial_state
              (take (iteration_bound (with_total 200) 100)
                 [got 1 null_frame, got 1 null_frame, got 1 null_frame]) = Exit x
          \<and> 0 \<le> iTotalTime (locals x) \<and> iTotalTime (locals x) \<le> INT_MAX)"
proof -
  let ?s = "locals_of (while_loop (with_total 200) initial_state [got 1 null_frame])"
  have a: "0 \<le> maxWaitTimeForFrame (with_total 200)"
    by (simp add: with_total_def eval_defs)
  have f2: "list_all (fits_int (with_total 200)) ([got 1 null_frame] @ [got 1 null_frame])"
    by (simp add: with_total_def fits_int_def audio_def INT_MAX_def UINT_MAX_def eval_defs)
  have s: "while_loop (with_total 200) initial_state [got 1 null_frame] = Continue ?s"
    by (simp add: with_total_def eval_defs)
  have v: "iTotalTime ?s = 100"
    "iTotalTime (locals_of (loop_body (with_total 200) ?s (got 1 null_frame))) = 200"
    by (simp_all add: with_total_def eval_defs)
  have b: "(0 :: int) < 100" by simp
  have c: "list_all (lasts_at_least (with_total 200) 100)
        [got 1 null_frame, got 1 null_frame, got 1 null_frame]"
    by (simp add: with_total_def lasts_at_least_def audio_def eval_defs)
  have f3: "list_all (fits_int (with_total 200))
        [got 1 null_frame, got 1 null_frame, got 1 null_frame]"
    by (simp add: with_total_def fits_int_def audio_def INT_MAX_def UINT_MAX_def eval_defs)
  have d: "iteration_bound (with_total 200) 100
        \<le> length [got 1 null_frame, got 1 null_frame, got 1 null_frame]"
    by (simp add: with_total_def iteration_bound_def eval_defs)
  from time_and_turns [of "with_total 200" "[got 1 null_frame]" "got 1 null_frame" ?s 100
      "[got 1 null_frame, got 1 null_frame, got 1 null_frame]"] a f2 s v b c f3 d
  show ?thesis by simp
qed

text \<open>
  C3 as the spec words it fails in two ways. With the argument \<open>initialSilence = -5\<close> a
  null frame lowers \<open>iTotalTime\<close> from 0 to \<open>-10\<close>. With
  \<open>totalAnalysisTime = 2147483647\<close> and frames of 536870911 ms the loop is still
  running after four turns with \<open>iTotalTime = 2147483644\<close>, and the sum of line 324 in
  the fifth turn is above \<open>INT_MAX\<close>: the compiled code wraps around to a negative
  \<open>iTotalTime\<close> and goes on.
\<close>

theorem time_decreases_counterexample:
  "iTotalTime initial_state = 0
   \<and> maxWaitTimeForFrame (with_initial_silence (- 5)) = - 5
   \<and> iTotalTime (locals_of (loop_body (with_initial_silence (- 5)) initial_state
         (got 1 null_frame))) = - 10
   \<and> while_loop (with_total 2147483647) initial_state
        [long_frame, long_frame, long_frame, long_frame]
       = Continue \<lparr>dspsilence = 1, inInitialSilence = 1, inGreeting = 0, voiceDuration = 0,
                   silenceDuration = 1, iTotalTime = 2147483644, iWordsCount = 0,
                   currentState = STATE_IN_WORD, consecutiveVoiceDuration = 0\<rparr>
   \<and> duration (with_total 2147483647) long_frame = 536870911
   \<and> INT_MAX < 2147483644 + duration (with_total 2147483647) long_frame"
  by (simp add: with_initial_silence_def with_total_def long_frame_def duration_def audio_def
        INT_MAX_def eval_defs)

section \<open>Silence of non-voice frames\<close>





section \<open>Maximum word length against maximum number of words\<close>

text \<open>
  The test of the word length (line 387) comes before the test of the word count
  (line 394): a frame of the voice branch that brings \<open>consecutiveVoiceDuration\<close> to
  \<open>maximumWordLength\<close> leaves the loop at line 392, whatever the word count is, and
  the lines after it are not run. What is published then depends on the wait of that
  turn.
\<close>

lemma voice_max_word_length:
  assumes "maximumWordLength p \<le> consecutiveVoiceDuration s + n"
  shows "\<exists>x. voice_branch p r n s = Exit x \<and> left_at x = MAXWORDLENGTH \<and> res x = r
           \<and> spitStatus x = ''MACHINE''
           \<and> spitCause x = ''MAXWORDLENGTH-'' @ format_d (consecutiveVoiceDuration s + n)
           \<and> silenceDuration (locals x) = silenceDuration s
           \<and> inInitialSilence (locals x) = inInitialSilence s
           \<and> inGreeting (locals x) = inGreeting s"
  using assms by (simp add: voice_branch_def Let_def)

lemma max_word_length_first:
  assumes "ast_waitfor ev > - 1" and "ast_read ev = Some f" and "audio f"
    and "iTotalTime s + framelength_of p f < totalAnalysisTime p"
    and "feed_detector p (dspsilence s) f \<le> 0"
    and "maximumWordLength p \<le> consecutiveVoiceDuration s + framelength_of p f"
  shows "\<exists>x. loop_body p s ev = Exit x \<and> left_at x = MAXWORDLENGTH
           \<and> silenceDuration (locals x) = silenceDuration s
           \<and> inInitialSilence (locals x) = inInitialSilence s
           \<and> inGreeting (locals x) = inGreeting s
           \<and> publish x =
               (if ast_waitfor ev = 0
                then (''NOFRAMES'', ''TIMEOUT-'' @ format_d (iTotalTime s + framelength_of p f))
                else (''MACHINE'', ''MAXWORDLENGTH-''
                        @ format_d (consecutiveVoiceDuration s + framelength_of p f)))"
proof -
  let ?s2 = "s\<lparr>iTotalTime := iTotalTime s + framelength_of p f,
               dspsilence := feed_detector p (dspsilence s) f\<rparr>"
  from assms(1-3) have "loop_body p s ev = timed_frame p (ast_waitfor ev) f s"
    by (auto simp add: loop_body_def audio_def)
  also from assms(4,5) have "\<dots> = voice_branch p (ast_waitfor ev) (framelength_of p f) ?s2"
    by (simp add: timed_frame_def Let_def)
  finally have b: "loop_body p s ev = voice_branch p (ast_waitfor ev) (framelength_of p f) ?s2" .
  from assms(6) have "maximumWordLength p \<le> consecutiveVoiceDuration ?s2 + framelength_of p f"
    by simp
  from voice_max_word_length [OF this, of "ast_waitfor ev"] obtain x
    where x: "voice_branch p (ast_waitfor ev) (framelength_of p f) ?s2 = Exit x"
      "left_at x = MAXWORDLENGTH" "res x = ast_waitfor ev" "spitStatus x = ''MACHINE''"
      "spitCause x = ''MAXWORDLENGTH-''
         @ format_d (consecutiveVoiceDuration ?s2 + framelength_of p f)"
      "silenceDuration (locals x) = silenceDuration ?s2"
      "inInitialSilence (locals x) = inInitialSilence ?s2"
      "inGreeting (locals x) = inGreeting ?s2"
    by blast
  from voice_time [of p "ast_waitfor ev" "framelength_of p f" ?s2] x(1)
  have "iTotalTime (locals x) = iTotalTime s + framelength_of p f" by simp
  with b x show ?thesis by (simp add: publish_def)
qed

text \<open>
  C4. When the word length and the word count both reach their limits on one frame, the
  claim wants status \<open>MACHINE\<close> and a cause that starts with \<open>MAXWORDLENGTH-\<close>. The
  code publishes something else when the wait of that turn returned 0. With
  \<open>maximumNumberOfWords = 1\<close> and \<open>maximumWordLength = 100\<close>, a silent frame of
  60 ms is followed by a voice frame of 100 ms whose wait returned 0. On that frame the
  word count reaches 1 and the word is 100 ms long. The loop is left at line 392 with
  \<open>MACHINE\<close> and \<open>MAXWORDLENGTH-100\<close> in the buffers, but \<open>res\<close> is still 0 there,
  unlike at the other detection breaks, and the function publishes \<open>NOFRAMES\<close> and
  \<open>TIMEOUT-160\<close>.
\<close>

theorem max_word_length_lost:
  "while_loop (with_word_limits 1 100) initial_state [got 1 (voice 480 60), got 0 (voice 800 0)]
     = Exit \<lparr>left_at = MAXWORDLENGTH, res = 0, spitStatus = ''MACHINE'',
             spitCause = ''MAXWORDLENGTH-100'',
             locals = \<lparr>dspsilence = 0, inInitialSilence = 1, inGreeting = 0, voiceDuration = 100,
                   silenceDuration = 60, iTotalTime = 160, iWordsCount = 1,
                   currentState = STATE_IN_WORD, consecutiveVoiceDuration = 100\<rparr>\<rparr>
   \<and> maximumWordLength (with_word_limits 1 100) = 100
   \<and> maximumNumberOfWords (with_word_limits 1 100) = 1
   \<and> detect (with_word_limits 1 100) [got 1 (voice 480 60), got 0 (voice 800 0)]
       = Some (''NOFRAMES'', ''TIMEOUT-160'')"
  by (simp add: with_word_limits_def eval_defs)

section \<open>Replaying a run\<close>

lemma silence_set_res: "set_res r (silence_branch p s) = silence_branch p s"
  by (simp add: set_res_def silence_branch_def Let_def)

lemma voice_set_res: "set_res r (voice_branch p r' n s) = voice_branch p r n s"
  by (simp add: set_res_def voice_branch_def Let_def)

lemma timed_set_res: "set_res r (timed_frame p r' f s) = timed_frame p r f s"
  unfolding timed_frame_def Let_def
  by (simp add: silence_set_res voice_set_res) (simp add: set_res_def)


lemma body_set_res:
  assumes "ast_read e = ast_read e'" and "ast_waitfor e > - 1" and "ast_waitfor e' > - 1"
  shows "loop_body p s e = set_res (ast_waitfor e) (loop_body p s e')"
proof (cases "ast_read e'")
  case None
  with assms show ?thesis by (simp add: loop_body_def set_res_def)
next
  case (Some f)
  with assms show ?thesis
    by (simp add: loop_body_def timed_set_res) (simp add: set_res_def)
qed

lemma set_res_same:
  assumes "st = set_res r' st" and "(r = 0) = (r' = 0)"
  shows "same_outcome (set_res r st) st"
proof (cases st)
  case (Continue a)
  then show ?thesis by (simp add: same_outcome_def set_res_def)
next
  case (Exit x)
  show ?thesis
  proof (cases "left_at x = TIMEOUT \<or> left_at x = MAXWORDLENGTH")
    case False
    with Exit show ?thesis by (simp add: same_outcome_def set_res_def)
  next
    case True
    with Exit assms(1) have "x = x\<lparr>res := r'\<rparr>" by (simp add: set_res_def)
    then have "res x = r'" by (metis loop_exit.select_convs(2) loop_exit.surjective loop_exit.update_convs(2))
    with Exit True assms(2) show ?thesis
      by (simp add: same_outcome_def set_res_def publish_def)
  qed
qed

lemma body_same:
  assumes "ast_read e = ast_read e'" and "sgn (ast_waitfor e) = sgn (ast_waitfor e')"
  shows "same_outcome (loop_body p s e) (loop_body p s e')"
proof (cases "ast_waitfor e > - 1")
  case True
  with assms(2) have w: "ast_waitfor e' > - 1" and z: "(ast_waitfor e = 0) = (ast_waitfor e' = 0)"
    by (auto simp add: sgn_if split: if_splits)
  from body_set_res [OF refl w w]
  have "loop_body p s e' = set_res (ast_waitfor e') (loop_body p s e')" .
  from set_res_same [OF this z] body_set_res [OF assms(1) True w, of p s]
  show ?thesis by simp
next
  case False
  with assms(2) have "\<not> ast_waitfor e' > - 1"
    by (auto simp add: sgn_if split: if_splits)
  with False show ?thesis
    by (simp add: loop_body_def same_outcome_def publish_def)
qed

lemma loop_same:
  "map ast_read evs = map ast_read evs' \<Longrightarrow>
   map (\<lambda>ev. sgn (ast_waitfor ev)) evs = map (\<lambda>ev. sgn (ast_waitfor ev)) evs' \<Longrightarrow>
   same_outcome (while_loop p s evs) (while_loop p s evs')"
proof (induction evs arbitrary: evs' s)
  case Nil
  then show ?case by (simp add: same_outcome_def)
next
  case (Cons e evs)
  from Cons.prems(1) obtain e' es' where evs': "evs' = e' # es'"
    by (cases evs') auto
  with Cons.prems have h: "ast_read e = ast_read e'" "sgn (ast_waitfor e) = sgn (ast_waitfor e')"
    "map ast_read evs = map ast_read es'"
    "map (\<lambda>ev. sgn (ast_waitfor ev)) evs = map (\<lambda>ev. sgn (ast_waitfor ev)) es'"
    by simp_all
  from body_same [OF h(1) h(2), of p s] Cons.IH [OF h(3) h(4)] evs'
  show ?case
    by (cases "loop_body p s e"; cases "loop_body p s e'") (simp_all add: same_outcome_def)
qed

text \<open>
  C8, as amended. The published pair is a function of the parameters, the frames (with
  the detector's answers) and, for every wait, whether it failed, timed out or found
  the channel ready: two event lists that agree on these publish the same.
\<close>

theorem replay:
  assumes "same_frames evs evs'" and "same_waits evs evs'"
  shows "detect p evs = detect p evs'"
  using loop_same [of evs evs' p initial_state] assms
  by (cases "while_loop p initial_state evs"; cases "while_loop p initial_state evs'")
     (simp_all add: same_frames_def same_waits_def same_outcome_def detect_def)

theorem replay_witness:
  "same_frames [got 1 (voice 160 0), got 0 null_frame] [got 5 (voice 160 0), got 0 null_frame]
   \<and> same_waits [got 1 (voice 160 0), got 0 null_frame] [got 5 (voice 160 0), got 0 null_frame]
   \<and> detect (with_total 120) [got 1 (voice 160 0), got 0 null_frame] = Some (''NOFRAMES'', ''TIMEOUT-120'')
   \<and> detect (with_total 120) [got 5 (voice 160 0), got 0 null_frame] = Some (''NOFRAMES'', ''TIMEOUT-120'')"
proof -
  have a: "same_frames [got 1 (voice 160 0), got 0 null_frame] [got 5 (voice 160 0), got 0 null_frame]"
    by (simp add: same_frames_def got_def)
  have b: "same_waits [got 1 (voice 160 0), got 0 null_frame] [got 5 (voice 160 0), got 0 null_frame]"
    by (simp add: same_waits_def got_def)
  have c: "detect (with_total 120) [got 1 (voice 160 0), got 0 null_frame] = Some (''NOFRAMES'', ''TIMEOUT-120'')"
    by (simp add: with_total_def eval_defs)
  from replay [OF a b, of "with_total 120"] a b c show ?thesis by simp
qed

text \<open>
  C8 as the spec words it fails: the same null frame with the same parameters gives
  \<open>NOTSURE\<close> when the wait returned 1 and \<open>NOFRAMES\<close> when it returned 0, and the
  value of \<^verbatim>\<open>ast_waitfor\<close> is the time that was left on the clock.
\<close>

theorem replay_counterexample:
  "same_frames [got 1 null_frame] [got 0 null_frame]
   \<and> detect (with_total 100) [got 1 null_frame] = Some (''NOTSURE'', ''TIMEOUT-100'')
   \<and> detect (with_total 100) [got 0 null_frame] = Some (''NOFRAMES'', ''TIMEOUT-100'')"
  by (simp add: same_frames_def with_total_def eval_defs)

section \<open>The statuses\<close>

lemma silence_exit_status: "silence_branch p s = Exit x \<Longrightarrow> known_status x \<and> res x = 1"
  by (auto simp add: silence_branch_def Let_def known_status_def split: if_splits)

lemma voice_exit_status:
  "voice_branch p r n s = Exit x \<Longrightarrow> known_status x \<and> (res x = 1 \<or> res x = r)"
  by (auto simp add: voice_branch_def Let_def known_status_def split: if_splits)

lemma timed_exit_status:
  "timed_frame p r f s = Exit x \<Longrightarrow> known_status x \<and> (res x = 1 \<or> res x = r)"
  unfolding timed_frame_def Let_def
  by (auto simp add: known_status_def dest: silence_exit_status voice_exit_status
        split: if_splits)

lemma body_exit_status:
  assumes "loop_body p s ev = Exit x"
  shows "(res x < 0 \<and> spitStatus x = '''' \<and> spitCause x = '''' \<and> ast_waitfor ev < 0)
     \<or> (known_status x \<and> 0 \<le> res x \<and> 0 \<le> ast_waitfor ev)"
proof (cases "ast_waitfor ev > - 1")
  case False
  with assms show ?thesis by (auto simp add: loop_body_def)
next
  case wait: True
  show ?thesis
  proof (cases "ast_read ev")
    case None
    with wait assms
    have "x = \<lparr>left_at = HANGUP, res = 1, spitStatus = ''HANGUP'', spitCause = '''',
                locals = s\<rparr>"
      by (simp add: loop_body_def)
    with wait show ?thesis by (simp add: known_status_def)
  next
    case (Some f)
    show ?thesis
    proof (cases "dtmf f")
      case True
      with wait Some assms
      have "x = \<lparr>left_at = DTMFFRAME, res = 1, spitStatus = ''DTMF'',
                  spitCause = ''DTMFFRAME-'' @ format_d (subclass_integer f - 48),
                  locals = s\<rparr>"
        by (simp add: loop_body_def dtmf_def)
      with wait show ?thesis by (simp add: known_status_def)
    next
      case False
      with wait Some assms have "timed_frame p (ast_waitfor ev) f s = Exit x"
        by (simp add: loop_body_def dtmf_def split: if_splits)
      from timed_exit_status [OF this] wait show ?thesis by auto
    qed
  qed
qed

lemma loop_exit_status:
  "while_loop p s evs = Exit x \<Longrightarrow>
     (res x < 0 \<and> spitStatus x = '''' \<and> spitCause x = ''''
        \<and> list_ex (\<lambda>ev. ast_waitfor ev < 0) evs)
     \<or> (known_status x \<and> 0 \<le> res x)"
proof (induction evs arbitrary: s)
  case Nil
  then show ?case by simp
next
  case (Cons ev evs)
  show ?case
  proof (cases "loop_body p s ev")
    case (Continue s')
    with Cons.prems have "while_loop p s' evs = Exit x" by simp
    from Cons.IH [OF this] show ?thesis by auto
  next
    case (Exit y)
    with Cons.prems have "y = x" by simp
    with Exit body_exit_status [of p s ev x] show ?thesis by auto
  qed
qed

lemma detect_status:
  assumes "detect p evs = Some (st, c)"
  shows "(st \<in> {''HUMAN'', ''MACHINE'', ''DTMF'', ''NOTSURE'', ''HANGUP'', ''NOFRAMES''}
          \<or> (st = '''' \<and> list_ex (\<lambda>ev. ast_waitfor ev < 0) evs))
         \<and> st \<noteq> ''DIALER'' \<and> \<not> prefix ''RECORDING'' c"
proof -
  from assms obtain x where x: "while_loop p initial_state evs = Exit x"
    and pub: "publish x = (st, c)"
    by (auto simp add: detect_def split: step.splits)
  from loop_exit_status [OF x] show ?thesis
  proof
    assume "res x < 0 \<and> spitStatus x = '''' \<and> spitCause x = ''''
      \<and> list_ex (\<lambda>ev. ast_waitfor ev < 0) evs"
    with pub show ?thesis by (simp add: publish_def)
  next
    assume k: "known_status x \<and> 0 \<le> res x"
    show ?thesis
    proof (cases "res x = 0")
      case True
      with pub have "st = ''NOFRAMES''" "c = ''TIMEOUT-'' @ format_d (iTotalTime (locals x))"
        by (simp_all add: publish_def)
      then show ?thesis by simp
    next
      case False
      with pub have "st = spitStatus x" "c = spitCause x"
        by (simp_all add: publish_def)
      with k show ?thesis
        unfolding known_status_def by (elim conjE disjE) simp_all
    qed
  qed
qed

lemma loop_exit_reached:
  "while_loop p s evs = Exit x \<Longrightarrow>
     (res x < 0 \<and> spitStatus x = '''' \<and> spitCause x = ''''
        \<and> (\<exists>pre ev rest. evs = pre @ ev # rest
              \<and> exit_point_of (while_loop p s pre) = None \<and> ast_waitfor ev < 0))
     \<or> (known_status x \<and> 0 \<le> res x)"
proof (induction evs arbitrary: s)
  case Nil
  then show ?case by simp
next
  case (Cons e evs)
  show ?case
  proof (cases "loop_body p s e")
    case (Continue s')
    with Cons.prems have "while_loop p s' evs = Exit x" by simp
    from Cons.IH [OF this] show ?thesis
    proof
      assume "res x < 0 \<and> spitStatus x = '''' \<and> spitCause x = ''''
        \<and> (\<exists>pre ev rest. evs = pre @ ev # rest
              \<and> exit_point_of (while_loop p s' pre) = None \<and> ast_waitfor ev < 0)"
      then obtain pre ev rest where r: "res x < 0" "spitStatus x = ''''" "spitCause x = ''''"
        and d: "evs = pre @ ev # rest" "exit_point_of (while_loop p s' pre) = None"
          "ast_waitfor ev < 0"
        by blast
      from d Continue have "e # evs = (e # pre) @ ev # rest"
        "exit_point_of (while_loop p s (e # pre)) = None"
        by simp_all
      with d(3) r show ?thesis by blast
    next
      assume "known_status x \<and> 0 \<le> res x"
      then show ?thesis by simp
    qed
  next
    case (Exit y)
    with Cons.prems have yx: "y = x" by simp
    from Exit yx body_exit_status [of p s e x]
    have "(res x < 0 \<and> spitStatus x = '''' \<and> spitCause x = '''' \<and> ast_waitfor e < 0)
          \<or> (known_status x \<and> 0 \<le> res x \<and> 0 \<le> ast_waitfor e)"
      by simp
    then show ?thesis
    proof
      assume a: "res x < 0 \<and> spitStatus x = '''' \<and> spitCause x = '''' \<and> ast_waitfor e < 0"
      have "e # evs = [] @ e # evs" "exit_point_of (while_loop p s []) = None"
        by simp_all
      with a show ?thesis by blast
    next
      assume "known_status x \<and> 0 \<le> res x \<and> 0 \<le> ast_waitfor e"
      then show ?thesis by simp
    qed
  qed
qed

lemma failed_wait_published:
  assumes "exit_point_of (while_loop p initial_state pre) = None" and "ast_waitfor ev < 0"
  shows "detect p (pre @ ev # rest) = Some ('''', '''')"
proof -
  from assms(1) obtain s where s: "while_loop p initial_state pre = Continue s"
    by (cases "while_loop p initial_state pre") simp_all
  from assms(2) have "loop_body p s ev
      = Exit \<lparr>left_at = WAITFOR_FAILED, res = ast_waitfor ev, spitStatus = '''',
              spitCause = '''', locals = s\<rparr>"
    by (simp add: loop_body_def)
  with s assms(2) show ?thesis
    by (simp add: detect_def while_loop_append publish_def)
qed

lemma detect_status_reached:
  assumes "detect p evs = Some (st, c)"
  shows "(st \<in> {''HUMAN'', ''MACHINE'', ''DTMF'', ''NOTSURE'', ''HANGUP'', ''NOFRAMES''}
            \<and> st \<noteq> '''')
         \<or> (st = '''' \<and> c = ''''
            \<and> (\<exists>pre ev rest. evs = pre @ ev # rest
                  \<and> exit_point_of (while_loop p initial_state pre) = None
                  \<and> ast_waitfor ev < 0))"
proof -
  from assms obtain x where x: "while_loop p initial_state evs = Exit x"
    and pub: "publish x = (st, c)"
    by (auto simp add: detect_def split: step.splits)
  from loop_exit_reached [OF x] show ?thesis
  proof
    assume "res x < 0 \<and> spitStatus x = '''' \<and> spitCause x = ''''
        \<and> (\<exists>pre ev rest. evs = pre @ ev # rest
              \<and> exit_point_of (while_loop p initial_state pre) = None \<and> ast_waitfor ev < 0)"
    with pub show ?thesis by (simp add: publish_def)
  next
    assume k: "known_status x \<and> 0 \<le> res x"
    show ?thesis
    proof (cases "res x = 0")
      case True
      with pub have "st = ''NOFRAMES''" by (simp add: publish_def)
      then show ?thesis by simp
    next
      case False
      with pub have "st = spitStatus x" by (simp add: publish_def)
      with k show ?thesis
        unfolding known_status_def by (elim conjE disjE) simp_all
    qed
  qed
qed

text \<open>
  C9, as amended. Whatever the defaults, the arguments and the channel do, the function
  never publishes the status \<open>DIALER\<close> nor a cause that starts with \<open>RECORDING\<close>.
  The statuses that a run of the loop publishes are \<open>HUMAN\<close>, \<open>MACHINE\<close>, \<open>DTMF\<close>,
  \<open>NOTSURE\<close>, \<open>HANGUP\<close>, \<open>NOFRAMES\<close> and the empty string. The empty string is
  published, with an empty cause, exactly when \<^verbatim>\<open>ast_waitfor\<close> returns a negative
  value in a turn that the loop reaches: if the status is empty, so is the cause, and the
  events are some \<open>pre\<close> after which the loop is still running, then an event whose
  wait is negative; and whenever the loop is still running after \<open>pre'\<close> and the wait
  of the next event is negative, both published strings are empty.
\<close>

theorem statuses:
  "(isAutomatedDialer d a chan = Some (st, c) \<longrightarrow>
        st \<noteq> ''DIALER'' \<and> \<not> prefix ''RECORDING'' c)
   \<and> (detect p evs = Some (st', c') \<longrightarrow>
        (st' \<in> {''HUMAN'', ''MACHINE'', ''DTMF'', ''NOTSURE'', ''HANGUP'', ''NOFRAMES''}
           \<and> st' \<noteq> '''')
        \<or> (st' = '''' \<and> c' = ''''
           \<and> (\<exists>pre ev rest. evs = pre @ ev # rest
                 \<and> exit_point_of (while_loop p initial_state pre) = None
                 \<and> ast_waitfor ev < 0)))
   \<and> (exit_point_of (while_loop p initial_state pre') = None \<and> ast_waitfor ev' < 0 \<longrightarrow>
        detect p (pre' @ ev' # rest') = Some ('''', ''''))"
proof (intro conjI impI)
  assume r: "isAutomatedDialer d a chan = Some (st, c)"
  show "st \<noteq> ''DIALER''"
  proof (cases "ast_set_read_format chan < 0 \<or> \<not> ast_dsp_new chan")
    case True
    with r have "st = ''NOTSLIN'' \<or> st = ''NODETECTOR''"
      by (auto simp add: isAutomatedDialer_def Let_def split: if_splits)
    then show ?thesis by auto
  next
    case False
    with r have "detect (resolve_params d a) (events chan) = Some (st, c)"
      by (simp add: isAutomatedDialer_def Let_def)
    from detect_status [OF this] show ?thesis by simp
  qed
  show "\<not> prefix ''RECORDING'' c"
  proof (cases "ast_set_read_format chan < 0 \<or> \<not> ast_dsp_new chan")
    case True
    with r have "c = ''INVALIDFORMAT'' \<or> c = ''CANNOTCREATE''"
      by (auto simp add: isAutomatedDialer_def Let_def split: if_splits)
    then show ?thesis by auto
  next
    case False
    with r have "detect (resolve_params d a) (events chan) = Some (st, c)"
      by (simp add: isAutomatedDialer_def Let_def)
    from detect_status [OF this] show ?thesis by simp
  qed
next
  assume "detect p evs = Some (st', c')"
  from detect_status_reached [OF this]
  show "(st' \<in> {''HUMAN'', ''MACHINE'', ''DTMF'', ''NOTSURE'', ''HANGUP'', ''NOFRAMES''}
           \<and> st' \<noteq> '''')
        \<or> (st' = '''' \<and> c' = ''''
           \<and> (\<exists>pre ev rest. evs = pre @ ev # rest
                 \<and> exit_point_of (while_loop p initial_state pre) = None
                 \<and> ast_waitfor ev < 0))" .
next
  assume "exit_point_of (while_loop p initial_state pre') = None \<and> ast_waitfor ev' < 0"
  then show "detect p (pre' @ ev' # rest') = Some ('''', '''')"
    by (simp add: failed_wait_published)
qed

theorem statuses_witness:
  "isAutomatedDialer initial_defaults no_args
       \<lparr>ast_set_read_format = 0, ast_dsp_new = True, events = [hangup]\<rparr>
     = Some (''HANGUP'', '''')
   \<and> ''HANGUP'' \<noteq> ''DIALER'' \<and> \<not> prefix ''RECORDING'' ''''
   \<and> detect default_params [hangup] = Some (''HANGUP'', '''')
   \<and> ''HANGUP'' \<in> {''HUMAN'', ''MACHINE'', ''DTMF'', ''NOTSURE'', ''HANGUP'', ''NOFRAMES''}
   \<and> exit_point_of (while_loop default_params initial_state [got 1 (voice 160 0)]) = None
   \<and> ast_waitfor wait_failed < 0
   \<and> detect default_params ([got 1 (voice 160 0)] @ wait_failed # [hangup]) = Some ('''', '''')"
proof -
  have a: "isAutomatedDialer initial_defaults no_args
       \<lparr>ast_set_read_format = 0, ast_dsp_new = True, events = [hangup]\<rparr>
     = Some (''HANGUP'', '''')"
    by (simp add: isAutomatedDialer_def eval_defs)
  have b: "detect default_params [hangup] = Some (''HANGUP'', '''')"
    by (simp add: eval_defs)
  have c: "exit_point_of (while_loop default_params initial_state [got 1 (voice 160 0)]) = None"
    by (simp add: eval_defs)
  have d: "ast_waitfor wait_failed < 0"
    by (simp add: wait_failed_def)
  from a b c d statuses [of initial_defaults no_args
       "\<lparr>ast_set_read_format = 0, ast_dsp_new = True, events = [hangup]\<rparr>"
       "''HANGUP''" "''''" default_params "[hangup]" "''HANGUP''" "''''"
       "[got 1 (voice 160 0)]" wait_failed "[hangup]"]
  show ?thesis by simp
qed

text \<open>
  C9 as the spec words it fails: when the first wait fails, the loop is left with both
  buffers empty, and the empty status is published.
\<close>

theorem empty_status_counterexample:
  "detect default_params [wait_failed] = Some ('''', '''')
   \<and> '''' \<notin> {''HUMAN'', ''MACHINE'', ''DTMF'', ''NOTSURE'', ''HANGUP'', ''NOFRAMES''}"
  by (simp add: eval_defs)

section \<open>Counting words\<close>





















end
